theory Spec2Isabelle
  imports Main
begin

section \<open>Signaling server (server/src/index.ts): data model\<close>

text \<open>
  The server keeps two pieces of process-wide mutable state, \<open>roomIdToParticipants\<close> and
  \<open>xirsysCache\<close>, and uses the rooms of the Socket.IO adapter for broadcasts. Every
  handler is modelled as a function from the state (and the arguments of the event) to the
  new state and the list of messages it emits, each paired with the socket that receives it.

  The handlers declare \<open>roomId\<close> and \<open>displayName\<close> as \<open>string\<close>; the model keeps that type,
  so the test \<open>!roomId\<close> is \<open>roomId = []\<close> and \<open>typeof roomId !== "string"\<close> is never true.
  The session description and the candidate are opaque to the server: type variables.
\<close>

type_synonym RoomId = string
type_synonym DisplayName = string
type_synonym SocketId = string

datatype ice_urls = Url string | Urls "string list"

record IceServer =
  urls :: ice_urls
  username :: "string option"
  credential :: "string option"

record xirsys_cache =
  iceServers :: "IceServer list"
  fetchedAt :: int

text \<open>\<open>socket.data\<close>: both fields are undefined until a join succeeds.\<close>

record socket_data =
  roomId :: "RoomId option"
  displayName :: "DisplayName option"

text \<open>
  A JavaScript \<open>Map\<close> iterates in insertion order, so a room's participants are an
  association list. \<open>sockets\<close> holds \<open>socket.data\<close> of every connected socket.
  \<open>adapter_rooms\<close> is the room table of the Socket.IO adapter (room name to the sockets in
  it, a JavaScript \<open>Set\<close>); \<open>issued_ids\<close> records the socket identifiers Socket.IO has
  generated so far, which it never issues again.
\<close>

record server_state =
  roomIdToParticipants :: "RoomId \<rightharpoonup> (SocketId \<times> DisplayName) list"
  xirsysCache :: "xirsys_cache option"
  sockets :: "SocketId \<rightharpoonup> socket_data"
  adapter_rooms :: "RoomId \<Rightarrow> SocketId list"
  issued_ids :: "SocketId set"

definition initial_state :: server_state where
  "initial_state =
     \<lparr>roomIdToParticipants = Map.empty, xirsysCache = None, sockets = Map.empty,
      adapter_rooms = (\<lambda>_. []), issued_ids = {}\<rparr>"

text \<open>Messages the server emits, and the messages and events it receives.\<close>

datatype ('sdp, 'cand) server_msg =
    ErrorMessage string
  | RoomFull RoomId
  | PeerJoined SocketId DisplayName
  | JoinedRoom RoomId "(SocketId \<times> DisplayName) list"
  | Offer SocketId 'sdp
  | Answer SocketId 'sdp
  | IceCandidate SocketId 'cand
  | PeerLeft SocketId

datatype ('sdp, 'cand) client_msg =
    JoinRoom RoomId DisplayName
  | OfferMsg RoomId 'sdp
  | AnswerMsg RoomId 'sdp
  | IceCandidateMsg RoomId 'cand
  | LeaveRoom RoomId

text \<open>The outcome of the request to the credential issuer, as the code distinguishes them.\<close>

datatype v_iceServers = Absent | NotAnArray | IceArray "IceServer list"

datatype xirsys_response =
    NetworkError
  | NotOk nat
  | MalformedJson
  | JsonBody v_iceServers

datatype ('sdp, 'cand) event =
    Connection SocketId
  | Message SocketId "('sdp, 'cand) client_msg"
  | Disconnect SocketId
  | GetConfig int xirsys_response

text \<open>
  The environment, read once at start (the Xirsys settings, with \<open>|| ""\<close> applied, and
  the public base URL) or at each request. \<open>XIRSYS_TTL_SECONDS\<close> is the configured number
  of seconds, taken to be an integer; \<open>Date.now()\<close> is an integer of milliseconds.
\<close>

record env =
  ICE_STUN_URLS :: "string option"
  TURN_URL :: "string option"
  TURN_USERNAME :: "string option"
  TURN_PASSWORD :: "string option"
  PUBLIC_BASE_URL :: string
  XIRSYS_IDENT :: string
  XIRSYS_SECRET :: string
  XIRSYS_CHANNEL :: string
  XIRSYS_TTL_SECONDS :: int

record config_body =
  body_iceServers :: "IceServer list"
  publicBaseUrl :: string

text \<open>An HTTP answer: the status and the JSON body.\<close>

datatype http_response = HttpJson (http_status: nat) (http_body: config_body)

section \<open>JavaScript containers and strings\<close>

text \<open>\<open>Map.prototype.set\<close>: an existing key keeps its place, a new key goes last.\<close>

fun map_set :: "'k \<Rightarrow> 'v \<Rightarrow> ('k \<times> 'v) list \<Rightarrow> ('k \<times> 'v) list" where
  "map_set k v [] = [(k, v)]"
| "map_set k v (p # ps) = (if fst p = k then (k, v) # ps else p # map_set k v ps)"

definition map_delete :: "'k \<Rightarrow> ('k \<times> 'v) list \<Rightarrow> ('k \<times> 'v) list" where
  "map_delete k ps = filter (\<lambda>p. fst p \<noteq> k) ps"

text \<open>\<open>Set.prototype.add\<close> and \<open>Set.prototype.delete\<close>.\<close>

definition set_add :: "'a \<Rightarrow> 'a list \<Rightarrow> 'a list" where
  "set_add x xs = (if x \<in> set xs then xs else xs @ [x])"

definition set_delete :: "'a \<Rightarrow> 'a list \<Rightarrow> 'a list" where
  "set_delete x xs = filter (\<lambda>y. y \<noteq> x) xs"

text \<open>\<open>String.prototype.split\<close> on a one-character separator.\<close>

fun split_on :: "char \<Rightarrow> string \<Rightarrow> string list" where
  "split_on c [] = [[]]"
| "split_on c (x # xs) =
     (if x = c then [] # split_on c xs
      else (case split_on c xs of [] \<Rightarrow> [[x]] | w # ws \<Rightarrow> (x # w) # ws))"

text \<open>
  \<open>String.prototype.trim\<close>. A \<open>char\<close> is eight bits wide, so the white space of
  JavaScript is the part of it below 256.
\<close>

definition is_space :: "char \<Rightarrow> bool" where
  "is_space c = (c \<in> set [CHR 0x09, CHR 0x0A, CHR 0x0B, CHR 0x0C, CHR 0x0D, CHR 0x20, CHR 0xA0])"

definition trim :: "string \<Rightarrow> string" where
  "trim s = rev (dropWhile is_space (rev (dropWhile is_space s)))"

text \<open>\<open>process.env.X || d\<close>: an unset or empty variable gives the default.\<close>

definition or_default :: "string option \<Rightarrow> string \<Rightarrow> string" where
  "or_default v d = (case v of None \<Rightarrow> d | Some s \<Rightarrow> if s = [] then d else s)"

section \<open>ICE configuration\<close>

text \<open>
  \<open>fetchXirsysIceServers\<close>. The arguments are the environment, the cache, \<open>Date.now()\<close> and
  what the issuer would answer; the result is the returned list (\<open>None\<close> for \<open>null\<close>), the
  cache afterwards, and whether the request to the issuer was made.
\<close>

definition xirsys_request ::
  "xirsys_cache option \<Rightarrow> int \<Rightarrow> xirsys_response \<Rightarrow> IceServer list option \<times> xirsys_cache option" where
  "xirsys_request cache now resp =
     (case resp of
        NetworkError \<Rightarrow> (None, cache)
      | NotOk status \<Rightarrow> (None, cache)
      | MalformedJson \<Rightarrow> (None, cache)
      | JsonBody v \<Rightarrow>
          (case v of
             Absent \<Rightarrow> (None, cache)
           | NotAnArray \<Rightarrow> (None, cache)
           | IceArray xs \<Rightarrow>
               if length xs > 0 then (Some xs, Some \<lparr>iceServers = xs, fetchedAt = now\<rparr>)
               else (None, cache)))"

definition fetchXirsysIceServers ::
  "env \<Rightarrow> xirsys_cache option \<Rightarrow> int \<Rightarrow> xirsys_response
     \<Rightarrow> IceServer list option \<times> xirsys_cache option \<times> bool" where
  "fetchXirsysIceServers e cache now resp =
     (if XIRSYS_IDENT e = [] \<or> XIRSYS_SECRET e = [] \<or> XIRSYS_CHANNEL e = []
      then (None, cache, False)
      else
        (case cache of
           Some c \<Rightarrow>
             if now - fetchedAt c < XIRSYS_TTL_SECONDS e * 1000
             then (Some (iceServers c), cache, False)
             else (let (r, cache') = xirsys_request cache now resp in (r, cache', True))
         | None \<Rightarrow> (let (r, cache') = xirsys_request cache now resp in (r, cache', True))))"

text \<open>The routing-discovery entry the \<open>/config\<close> handler starts its list with.\<close>

definition stunUrls :: "env \<Rightarrow> string list" where
  "stunUrls e =
     filter (\<lambda>s. s \<noteq> [])
       (map trim (split_on (CHR '','') (or_default (ICE_STUN_URLS e) ''stun:stun.l.google.com:19302'')))"

definition stun_servers :: "env \<Rightarrow> IceServer list" where
  "stun_servers e =
     (if length (stunUrls e) > 0
      then [\<lparr>urls = Urls (stunUrls e), username = None, credential = None\<rparr>]
      else [])"

definition static_turn :: "env \<Rightarrow> IceServer list" where
  "static_turn e =
     (case (map_option trim (TURN_URL e), map_option trim (TURN_USERNAME e),
            map_option trim (TURN_PASSWORD e)) of
        (Some turnUrl, Some turnUsername, Some turnPassword) \<Rightarrow>
          if turnUrl \<noteq> [] \<and> turnUsername \<noteq> [] \<and> turnPassword \<noteq> []
          then [\<lparr>urls = Url turnUrl, username = Some turnUsername, credential = Some turnPassword\<rparr>]
          else []
      | _ \<Rightarrow> [])"

text \<open>
  The handler of \<open>GET /config\<close>. It has one way to answer, \<open>res.json\<close>, which sends the
  body with status 200; the result is that answer, the cache afterwards and whether the
  issuer was asked.
\<close>

definition get_config ::
  "env \<Rightarrow> xirsys_cache option \<Rightarrow> int \<Rightarrow> xirsys_response
     \<Rightarrow> http_response \<times> xirsys_cache option \<times> bool" where
  "get_config e cache now resp =
     (let (xirsysServers, cache', asked) = fetchXirsysIceServers e cache now resp;
          relay = (case xirsysServers of
                     Some xs \<Rightarrow> if length xs > 0 then xs else static_turn e
                   | None \<Rightarrow> static_turn e)
      in (HttpJson 200 \<lparr>body_iceServers = stun_servers e @ relay,
                         publicBaseUrl = PUBLIC_BASE_URL e\<rparr>,
          cache', asked))"


text \<open>The cache entry is reused while it is younger than the configured time to live.\<close>

definition unexpired :: "env \<Rightarrow> int \<Rightarrow> xirsys_cache \<Rightarrow> bool" where
  "unexpired e now c = (now - fetchedAt c < XIRSYS_TTL_SECONDS e * 1000)"

section \<open>Socket handlers\<close>

text \<open>
  \<open>socket.to(roomId).emit(m)\<close>: the message goes to every socket of the adapter's room
  except the sender.
\<close>

definition to_room :: "server_state \<Rightarrow> SocketId \<Rightarrow> RoomId \<Rightarrow> SocketId list" where
  "to_room s sid r = filter (\<lambda>b. b \<noteq> sid) (adapter_rooms s r)"

definition broadcast ::
  "server_state \<Rightarrow> SocketId \<Rightarrow> RoomId \<Rightarrow> 'm \<Rightarrow> (SocketId \<times> 'm) list" where
  "broadcast s sid r m = map (\<lambda>b. (b, m)) (to_room s sid r)"

text \<open>The members the registry records for a room; none when the room has no entry.\<close>

definition participants_of :: "server_state \<Rightarrow> RoomId \<Rightarrow> (SocketId \<times> DisplayName) list" where
  "participants_of s r = (case roomIdToParticipants s r of None \<Rightarrow> [] | Some ps \<Rightarrow> ps)"

definition members :: "server_state \<Rightarrow> RoomId \<Rightarrow> SocketId list" where
  "members s r = map fst (participants_of s r)"

definition join_room ::
  "server_state \<Rightarrow> SocketId \<Rightarrow> RoomId \<Rightarrow> DisplayName
     \<Rightarrow> server_state \<times> (SocketId \<times> ('sdp, 'cand) server_msg) list" where
  "join_room s sid r name =
     (if r = [] then (s, [(sid, ErrorMessage ''Invalid roomId'')])
      else
        (let participants = (case roomIdToParticipants s r of Some ps \<Rightarrow> ps | None \<Rightarrow> [])
         in if length participants \<ge> 2 then (s, [(sid, RoomFull r)])
            else
              (let name' = (if name = [] then ''Guest'' else name);
                   participants' = map_set sid name' participants;
                   s' = s\<lparr>roomIdToParticipants := (roomIdToParticipants s)(r \<mapsto> participants'),
                          adapter_rooms := (adapter_rooms s)(r := set_add sid (adapter_rooms s r)),
                          sockets := (sockets s)(sid \<mapsto> \<lparr>roomId = Some r, displayName = Some name'\<rparr>)\<rparr>
               in (s', broadcast s' sid r (PeerJoined sid name')
                       @ [(sid, JoinedRoom r (filter (\<lambda>p. fst p \<noteq> sid) participants'))]))))"

definition offer ::
  "server_state \<Rightarrow> SocketId \<Rightarrow> RoomId \<Rightarrow> 'sdp
     \<Rightarrow> server_state \<times> (SocketId \<times> ('sdp, 'cand) server_msg) list" where
  "offer s sid r sdp = (if r = [] then (s, []) else (s, broadcast s sid r (Offer sid sdp)))"

definition answer ::
  "server_state \<Rightarrow> SocketId \<Rightarrow> RoomId \<Rightarrow> 'sdp
     \<Rightarrow> server_state \<times> (SocketId \<times> ('sdp, 'cand) server_msg) list" where
  "answer s sid r sdp = (if r = [] then (s, []) else (s, broadcast s sid r (Answer sid sdp)))"

definition ice_candidate ::
  "server_state \<Rightarrow> SocketId \<Rightarrow> RoomId \<Rightarrow> 'cand
     \<Rightarrow> server_state \<times> (SocketId \<times> ('sdp, 'cand) server_msg) list" where
  "ice_candidate s sid r candidate =
     (if r = [] then (s, []) else (s, broadcast s sid r (IceCandidate sid candidate)))"

definition leave_room ::
  "server_state \<Rightarrow> SocketId \<Rightarrow> RoomId
     \<Rightarrow> server_state \<times> (SocketId \<times> ('sdp, 'cand) server_msg) list" where
  "leave_room s sid r =
     (if r = [] then (s, [])
      else
        (let s' = s\<lparr>adapter_rooms := (adapter_rooms s)(r := set_delete sid (adapter_rooms s r)),
                    roomIdToParticipants :=
                      (case roomIdToParticipants s r of
                         None \<Rightarrow> roomIdToParticipants s
                       | Some ps \<Rightarrow> (roomIdToParticipants s)(r \<mapsto> map_delete sid ps))\<rparr>
         in (s', broadcast s' sid r (PeerLeft sid))))"

text \<open>
  The \<open>disconnect\<close> handler, given \<open>socket.data\<close> of the closing socket. It runs after
  Socket.IO took the socket out of every room.
\<close>

definition on_disconnect ::
  "server_state \<Rightarrow> SocketId \<Rightarrow> socket_data
     \<Rightarrow> server_state \<times> (SocketId \<times> ('sdp, 'cand) server_msg) list" where
  "on_disconnect s sid d =
     (case roomId d of
        None \<Rightarrow> (s, [])
      | Some r \<Rightarrow>
          if r = [] then (s, [])
          else
            (case roomIdToParticipants s r of
               None \<Rightarrow> (s, broadcast s sid r (PeerLeft sid))
             | Some ps \<Rightarrow>
                 (let ps' = map_delete sid ps
                  in (s\<lparr>roomIdToParticipants :=
                          (if length ps' = 0 then (roomIdToParticipants s)(r := None)
                           else (roomIdToParticipants s)(r \<mapsto> ps'))\<rparr>,
                      broadcast s sid r (PeerLeft sid)))))"

text \<open>
  What the Socket.IO library does around the handlers, as its documentation describes it:
  a new socket gets a fresh identifier and joins the room named by that identifier before
  the \<open>connection\<close> callback runs; a closing socket leaves all its rooms before the
  \<open>disconnect\<close> handler runs, and its data is gone afterwards.
\<close>

definition connection :: "server_state \<Rightarrow> SocketId \<Rightarrow> server_state" where
  "connection s sid =
     s\<lparr>sockets := (sockets s)(sid \<mapsto> \<lparr>roomId = None, displayName = None\<rparr>),
       adapter_rooms := (adapter_rooms s)(sid := set_add sid (adapter_rooms s sid)),
       issued_ids := insert sid (issued_ids s)\<rparr>"

definition disconnect ::
  "server_state \<Rightarrow> SocketId \<Rightarrow> server_state \<times> (SocketId \<times> ('sdp, 'cand) server_msg) list" where
  "disconnect s sid =
     (case sockets s sid of
        None \<Rightarrow> (s, [])
      | Some d \<Rightarrow>
          (let s0 = s\<lparr>adapter_rooms := (\<lambda>r. set_delete sid (adapter_rooms s r)),
                      sockets := (sockets s)(sid := None)\<rparr>
           in on_disconnect s0 sid d))"

definition handle ::
  "server_state \<Rightarrow> SocketId \<Rightarrow> ('sdp, 'cand) client_msg
     \<Rightarrow> server_state \<times> (SocketId \<times> ('sdp, 'cand) server_msg) list" where
  "handle s sid m =
     (case m of
        JoinRoom r name \<Rightarrow> join_room s sid r name
      | OfferMsg r sdp \<Rightarrow> offer s sid r sdp
      | AnswerMsg r sdp \<Rightarrow> answer s sid r sdp
      | IceCandidateMsg r candidate \<Rightarrow> ice_candidate s sid r candidate
      | LeaveRoom r \<Rightarrow> leave_room s sid r)"

text \<open>
  One event of the single-threaded dispatcher. A message is handled only for a connected
  socket, and an identifier is issued only once.
\<close>

definition step ::
  "env \<Rightarrow> server_state \<Rightarrow> ('sdp, 'cand) event
     \<Rightarrow> server_state \<times> (SocketId \<times> ('sdp, 'cand) server_msg) list" where
  "step e s ev =
     (case ev of
        Connection sid \<Rightarrow> (if sid \<in> issued_ids s then (s, []) else (connection s sid, []))
      | Message sid m \<Rightarrow> (if sockets s sid = None then (s, []) else handle s sid m)
      | Disconnect sid \<Rightarrow> disconnect s sid
      | GetConfig now resp \<Rightarrow>
          (s\<lparr>xirsysCache := fst (snd (get_config e (xirsysCache s) now resp))\<rparr>, []))"

fun run :: "env \<Rightarrow> server_state \<Rightarrow> ('sdp, 'cand) event list \<Rightarrow> server_state" where
  "run e s [] = s"
| "run e s (ev # evs) = run e (fst (step e s ev)) evs"

section \<open>Invariants of the reachable states\<close>

text \<open>The issuer is configured when identity, secret and channel are all set.\<close>

definition configured :: "env \<Rightarrow> bool" where
  "configured e = (XIRSYS_IDENT e \<noteq> [] \<and> XIRSYS_SECRET e \<noteq> [] \<and> XIRSYS_CHANNEL e \<noteq> [])"

text \<open>
  No room is keyed by the empty string, and a room has at most two members, each
  listed once.
\<close>

definition registry_ok :: "server_state \<Rightarrow> bool" where
  "registry_ok s \<longleftrightarrow>
     roomIdToParticipants s [] = None \<and>
     (\<forall>r ps. roomIdToParticipants s r = Some ps \<longrightarrow> length ps \<le> 2 \<and> distinct (map fst ps))"

text \<open>
  A socket in an adapter room is connected, and is a registered member of the room of
  that name or the socket whose identifier is that name. A connected registered member
  is in the adapter room. Registered and connected identifiers have been issued.
\<close>

definition rooms_sound :: "server_state \<Rightarrow> bool" where
  "rooms_sound s \<longleftrightarrow>
     (\<forall>r b. b \<in> set (adapter_rooms s r) \<longrightarrow>
        sockets s b \<noteq> None \<and> (b = r \<or> b \<in> set (members s r)))"

definition rooms_complete :: "server_state \<Rightarrow> bool" where
  "rooms_complete s \<longleftrightarrow>
     (\<forall>r b. sockets s b \<noteq> None \<longrightarrow> b \<in> set (members s r) \<longrightarrow> b \<in> set (adapter_rooms s r))"

definition ids_ok :: "server_state \<Rightarrow> bool" where
  "ids_ok s \<longleftrightarrow>
     (\<forall>b. sockets s b \<noteq> None \<longrightarrow> b \<in> issued_ids s) \<and>
     (\<forall>r b. b \<in> set (members s r) \<longrightarrow> b \<in> issued_ids s)"

text \<open>A cache entry exists only for a configured issuer and is never empty.\<close>

definition cache_ok :: "env \<Rightarrow> server_state \<Rightarrow> bool" where
  "cache_ok e s \<longleftrightarrow>
     (\<forall>c. xirsysCache s = Some c \<longrightarrow> configured e \<and> iceServers c \<noteq> [])"

definition wf :: "server_state \<Rightarrow> bool" where
  "wf s \<longleftrightarrow> registry_ok s \<and> rooms_sound s \<and> rooms_complete s \<and> ids_ok s"

text \<open>
  The environment with no variable set, where every setting takes its default, and one
  with the issuer configured.
\<close>

definition default_env :: env where
  "default_env =
     \<lparr>ICE_STUN_URLS = None, TURN_URL = None, TURN_USERNAME = None, TURN_PASSWORD = None,
      PUBLIC_BASE_URL = ''http://localhost:8080'', XIRSYS_IDENT = [], XIRSYS_SECRET = [],
      XIRSYS_CHANNEL = [], XIRSYS_TTL_SECONDS = 600\<rparr>"

definition xirsys_env :: env where
  "xirsys_env =
     default_env\<lparr>XIRSYS_IDENT := ''ident'', XIRSYS_SECRET := ''secret'',
       XIRSYS_CHANNEL := ''channel''\<rparr>"

section \<open>Lemmas on the containers\<close>

lemma keys_map_set: "fst ` set (map_set k v ps) = insert k (fst ` set ps)"
  by (induction ps) auto

lemma distinct_map_set: "distinct (map fst ps) \<Longrightarrow> distinct (map fst (map_set k v ps))"
  by (induction ps) (auto simp: keys_map_set)

lemma length_map_set: "length (map_set k v ps) \<le> Suc (length ps)"
  by (induction ps) auto

lemma length_map_set_2: "length ps < 2 \<Longrightarrow> length (map_set k v ps) \<le> 2"
  using length_map_set [of k v ps] by simp

lemma keys_map_delete: "fst ` set (map_delete k ps) = fst ` set ps - {k}"
  by (auto simp: map_delete_def)

lemma map_delete_Nil: "map_delete k ps = [] \<Longrightarrow> (a, b) \<in> set ps \<Longrightarrow> a = k"
  by (auto simp: map_delete_def filter_empty_conv)

lemma distinct_map_delete: "distinct (map fst ps) \<Longrightarrow> distinct (map fst (map_delete k ps))"
  by (simp add: map_delete_def distinct_map_filter)

lemma length_map_delete: "length ps \<le> n \<Longrightarrow> length (map_delete k ps) \<le> n"
  unfolding map_delete_def by (rule le_trans [OF length_filter_le])

lemma set_set_add: "set (set_add x xs) = insert x (set xs)"
  by (auto simp: set_add_def)

lemma distinct_set_add: "distinct xs \<Longrightarrow> distinct (set_add x xs)"
  by (simp add: set_add_def)

lemma set_set_delete: "set (set_delete x xs) = set xs - {x}"
  by (auto simp: set_delete_def)

lemma distinct_set_delete: "distinct xs \<Longrightarrow> distinct (set_delete x xs)"
  by (simp add: set_delete_def)

lemmas js_simps = keys_map_set distinct_map_set keys_map_delete distinct_map_delete
  set_set_add distinct_set_add set_set_delete distinct_set_delete

subsection \<open>The registry invariant is kept by every handler\<close>

lemma registry_ok_join: "registry_ok s \<Longrightarrow> registry_ok (fst (join_room s sid r name))"
  unfolding registry_ok_def join_room_def Let_def
  by (auto simp: distinct_map_set length_map_set_2 split: option.splits)

lemma registry_ok_leave: "registry_ok s \<Longrightarrow> registry_ok (fst (leave_room s sid r))"
  unfolding registry_ok_def leave_room_def Let_def
  by (auto simp: distinct_map_delete length_map_delete split: option.splits)

lemma registry_ok_on_disconnect: "registry_ok s \<Longrightarrow> registry_ok (fst (on_disconnect s sid d))"
  unfolding registry_ok_def on_disconnect_def Let_def
  by (auto simp: distinct_map_delete length_map_delete split: option.splits)

lemma registry_ok_disconnect: "registry_ok s \<Longrightarrow> registry_ok (fst (disconnect s sid))"
proof -
  assume a: "registry_ok s"
  show ?thesis
  proof (cases "sockets s sid")
    case None then show ?thesis using a by (simp add: disconnect_def)
  next
    case (Some d)
    have "registry_ok (s\<lparr>adapter_rooms := (\<lambda>r. set_delete sid (adapter_rooms s r)),
                      sockets := (sockets s)(sid := None)\<rparr>)"
      using a by (simp add: registry_ok_def)
    then show ?thesis using Some by (simp add: disconnect_def registry_ok_on_disconnect)
  qed
qed

lemma registry_ok_step: "registry_ok s \<Longrightarrow> registry_ok (fst (step e s ev))"
proof (cases ev)
  case (Connection sid)
  assume "registry_ok s"
  then show ?thesis using Connection by (simp add: step_def connection_def registry_ok_def)
next
  case (Message sid m)
  assume a: "registry_ok s"
  then show ?thesis using Message
    by (cases m) (simp_all add: step_def handle_def registry_ok_join registry_ok_leave
        offer_def answer_def ice_candidate_def)
next
  case (Disconnect sid)
  assume "registry_ok s"
  then show ?thesis using Disconnect by (simp add: step_def registry_ok_disconnect)
next
  case (GetConfig now resp)
  assume "registry_ok s"
  then show ?thesis using GetConfig by (simp add: step_def registry_ok_def)
qed

lemma registry_ok_run: "registry_ok s \<Longrightarrow> registry_ok (run e s evs)"
  by (induction evs arbitrary: s) (simp_all add: registry_ok_step)

lemma registry_ok_initial: "registry_ok initial_state"
  by (simp add: registry_ok_def initial_state_def)

subsection \<open>What each handler changes\<close>

lemma join_room_noop:
  "r = [] \<or> 2 \<le> length (participants_of s r) \<Longrightarrow> fst (join_room s sid r name) = s"
  by (auto simp: join_room_def participants_of_def Let_def split: option.splits)

lemma join_room_members:
  "r \<noteq> [] \<Longrightarrow> length (participants_of s r) < 2 \<Longrightarrow>
   set (members (fst (join_room s sid r name)) r') =
     (if r' = r then insert sid (set (members s r)) else set (members s r'))"
  by (auto simp: join_room_def participants_of_def members_def Let_def keys_map_set
      split: option.splits)

lemma join_room_adapter:
  "r \<noteq> [] \<Longrightarrow> length (participants_of s r) < 2 \<Longrightarrow>
   adapter_rooms (fst (join_room s sid r name)) =
     (adapter_rooms s)(r := set_add sid (adapter_rooms s r))"
  by (auto simp: join_room_def participants_of_def Let_def split: option.splits)

lemma join_room_sockets:
  "r \<noteq> [] \<Longrightarrow> length (participants_of s r) < 2 \<Longrightarrow>
   sockets (fst (join_room s sid r name)) =
     (sockets s)(sid \<mapsto> \<lparr>roomId = Some r,
        displayName = Some (if name = [] then ''Guest'' else name)\<rparr>)"
  by (auto simp: join_room_def participants_of_def Let_def split: option.splits)

lemma join_room_issued: "issued_ids (fst (join_room s sid r name)) = issued_ids s"
  by (auto simp: join_room_def Let_def split: option.splits)

lemma leave_room_members:
  "set (members (fst (leave_room s sid r)) r') =
     (if r' = r \<and> r \<noteq> [] then set (members s r) - {sid} else set (members s r'))"
  by (auto simp: leave_room_def participants_of_def members_def Let_def keys_map_delete
      split: option.splits)

lemma leave_room_adapter:
  "adapter_rooms (fst (leave_room s sid r)) =
     (if r = [] then adapter_rooms s
      else (adapter_rooms s)(r := set_delete sid (adapter_rooms s r)))"
  by (auto simp: leave_room_def Let_def split: option.splits)

lemma leave_room_sockets: "sockets (fst (leave_room s sid r)) = sockets s"
  by (auto simp: leave_room_def Let_def split: option.splits)

lemma leave_room_issued: "issued_ids (fst (leave_room s sid r)) = issued_ids s"
  by (auto simp: leave_room_def Let_def split: option.splits)

lemma on_disconnect_members:
  "set (members (fst (on_disconnect s sid d)) r') =
     (if roomId d = Some r' \<and> r' \<noteq> [] then set (members s r') - {sid} else set (members s r'))"
  by (auto simp: on_disconnect_def participants_of_def members_def Let_def keys_map_delete
      split: option.splits dest: map_delete_Nil)

lemma on_disconnect_adapter: "adapter_rooms (fst (on_disconnect s sid d)) = adapter_rooms s"
  by (auto simp: on_disconnect_def Let_def split: option.splits)

lemma on_disconnect_sockets: "sockets (fst (on_disconnect s sid d)) = sockets s"
  by (auto simp: on_disconnect_def Let_def split: option.splits)

lemma on_disconnect_issued: "issued_ids (fst (on_disconnect s sid d)) = issued_ids s"
  by (auto simp: on_disconnect_def Let_def split: option.splits)

lemmas join_room_effect = join_room_members join_room_adapter join_room_sockets join_room_issued
lemmas leave_room_effect = leave_room_members leave_room_adapter leave_room_sockets leave_room_issued
lemmas on_disconnect_effect =
  on_disconnect_members on_disconnect_adapter on_disconnect_sockets on_disconnect_issued

subsection \<open>The adapter rooms agree with the registry\<close>

lemma rooms_sound_join: "rooms_sound s \<Longrightarrow> rooms_sound (fst (join_room s sid r name))"
proof (cases "r = [] \<or> 2 \<le> length (participants_of s r)")
  case True
  assume "rooms_sound s" then show ?thesis using True by (simp add: join_room_noop)
next
  case False
  assume "rooms_sound s" then show ?thesis using False
    unfolding rooms_sound_def by (auto simp: join_room_effect set_set_add)
qed

lemma rooms_sound_leave: "rooms_sound s \<Longrightarrow> rooms_sound (fst (leave_room s sid r))"
  unfolding rooms_sound_def by (auto simp: leave_room_effect set_set_delete)

lemma rooms_sound_on_disconnect:
  "rooms_sound s \<Longrightarrow> \<forall>r. sid \<notin> set (adapter_rooms s r) \<Longrightarrow>
   rooms_sound (fst (on_disconnect s sid d))"
  unfolding rooms_sound_def by (auto simp: on_disconnect_effect)

lemma rooms_complete_join:
  "rooms_complete s \<Longrightarrow> sockets s sid \<noteq> None \<Longrightarrow>
   rooms_complete (fst (join_room s sid r name))"
proof (cases "r = [] \<or> 2 \<le> length (participants_of s r)")
  case True
  assume "rooms_complete s" then show ?thesis using True by (simp add: join_room_noop)
next
  case False
  assume "rooms_complete s" "sockets s sid \<noteq> None" then show ?thesis using False
    unfolding rooms_complete_def by (auto simp: join_room_effect set_set_add)
qed

lemma rooms_complete_leave: "rooms_complete s \<Longrightarrow> rooms_complete (fst (leave_room s sid r))"
  unfolding rooms_complete_def by (auto simp: leave_room_effect set_set_delete)

lemma rooms_complete_on_disconnect:
  "rooms_complete s \<Longrightarrow> rooms_complete (fst (on_disconnect s sid d))"
  unfolding rooms_complete_def by (auto simp: on_disconnect_effect)

lemma ids_ok_join:
  "ids_ok s \<Longrightarrow> sockets s sid \<noteq> None \<Longrightarrow> ids_ok (fst (join_room s sid r name))"
proof (cases "r = [] \<or> 2 \<le> length (participants_of s r)")
  case True
  assume "ids_ok s" then show ?thesis using True by (simp add: join_room_noop)
next
  case False
  assume "ids_ok s" "sockets s sid \<noteq> None" then show ?thesis using False
    unfolding ids_ok_def by (auto simp: join_room_effect)
qed

lemma ids_ok_leave: "ids_ok s \<Longrightarrow> ids_ok (fst (leave_room s sid r))"
  unfolding ids_ok_def by (auto simp: leave_room_effect)

lemma ids_ok_on_disconnect: "ids_ok s \<Longrightarrow> ids_ok (fst (on_disconnect s sid d))"
  unfolding ids_ok_def by (auto simp: on_disconnect_effect)


subsection \<open>Every reachable state is well formed\<close>

lemma wf_initial: "wf initial_state"
  by (simp add: wf_def registry_ok_def rooms_sound_def rooms_complete_def ids_ok_def
      initial_state_def members_def participants_of_def)

lemma connection_members: "members (connection s sid) = members s"
  by (simp add: connection_def members_def participants_of_def fun_eq_iff)

lemma wf_connection: "wf s \<Longrightarrow> sid \<notin> issued_ids s \<Longrightarrow> wf (connection s sid)"
proof -
  assume a: "wf s" and f: "sid \<notin> issued_ids s"
  have 1: "registry_ok (connection s sid)"
    using a by (simp add: wf_def registry_ok_def connection_def)
  have 2: "rooms_sound (connection s sid)"
    using a unfolding wf_def rooms_sound_def connection_members
    by (auto simp: connection_def set_set_add)
  have 3: "rooms_complete (connection s sid)"
    using a f unfolding wf_def rooms_complete_def ids_ok_def connection_members
    by (auto simp: connection_def set_set_add)
  have 4: "ids_ok (connection s sid)"
    using a unfolding wf_def ids_ok_def connection_members
    by (auto simp: connection_def)
  show ?thesis using 1 2 3 4 by (simp add: wf_def)
qed

lemma wf_handle: "wf s \<Longrightarrow> sockets s sid \<noteq> None \<Longrightarrow> wf (fst (handle s sid m))"
  unfolding wf_def
  by (cases m)
    (simp_all add: handle_def offer_def answer_def ice_candidate_def
      registry_ok_join rooms_sound_join rooms_complete_join ids_ok_join
      registry_ok_leave rooms_sound_leave rooms_complete_leave ids_ok_leave)

lemma wf_disconnect: "wf s \<Longrightarrow> wf (fst (disconnect s sid))"
proof (cases "sockets s sid")
  case None
  assume "wf s" then show ?thesis using None by (simp add: disconnect_def)
next
  case (Some d)
  assume a: "wf s"
  define s0 where "s0 = s\<lparr>adapter_rooms := (\<lambda>r. set_delete sid (adapter_rooms s r)),
                      sockets := (sockets s)(sid := None)\<rparr>"
  have m: "members s0 = members s" by (simp add: s0_def members_def participants_of_def fun_eq_iff)
  have 1: "registry_ok s0" using a by (simp add: wf_def registry_ok_def s0_def)
  have 2: "rooms_sound s0" using a
    unfolding wf_def rooms_sound_def m by (auto simp: s0_def set_set_delete)
  have 3: "rooms_complete s0" using a
    unfolding wf_def rooms_complete_def m by (auto simp: s0_def set_set_delete)
  have 4: "ids_ok s0" using a
    unfolding wf_def ids_ok_def m by (auto simp: s0_def)
  have 5: "\<forall>r. sid \<notin> set (adapter_rooms s0 r)" by (simp add: s0_def set_set_delete)
  have e: "disconnect s sid = on_disconnect s0 sid d"
    using Some by (simp add: disconnect_def s0_def)
  show ?thesis
    unfolding wf_def e
    using registry_ok_on_disconnect [OF 1] rooms_sound_on_disconnect [OF 2 5]
      rooms_complete_on_disconnect [OF 3] ids_ok_on_disconnect [OF 4]
    by blast
qed

lemma wf_step: "wf s \<Longrightarrow> wf (fst (step e s ev))"
proof (cases ev)
  case (Connection sid)
  assume "wf s" then show ?thesis using Connection by (simp add: step_def wf_connection)
next
  case (Message sid m)
  assume "wf s" then show ?thesis using Message by (simp add: step_def wf_handle)
next
  case (Disconnect sid)
  assume "wf s" then show ?thesis using Disconnect by (simp add: step_def wf_disconnect)
next
  case (GetConfig now resp)
  assume "wf s" then show ?thesis using GetConfig
    by (simp add: step_def wf_def registry_ok_def rooms_sound_def rooms_complete_def ids_ok_def
        members_def participants_of_def)
qed

lemma wf_run: "wf s \<Longrightarrow> wf (run e s evs)"
  by (induction evs arbitrary: s) (simp_all add: wf_step)

lemma wf_reachable: "wf (run e initial_state evs)"
  by (rule wf_run [OF wf_initial])

section \<open>Evaluation\<close>

lemmas model_defs = step_def handle_def join_room_def leave_room_def disconnect_def
  on_disconnect_def connection_def offer_def answer_def ice_candidate_def broadcast_def
  to_room_def members_def participants_of_def set_add_def set_delete_def map_delete_def
  initial_state_def Let_def

section \<open>Relaying changes no state\<close>

text \<open>
  Claim C10. Handling an offer, an answer or a candidate never modifies the server state:
  the room map with every room's members and display names, the per-connection data, the
  adapter rooms and the credential cache are the same before and after, for every message
  and every state.
\<close>

theorem relay_frame:
  "fst (step e s (Message sid (OfferMsg r sdp))) = s \<and>
   fst (step e s (Message sid (AnswerMsg r sdp))) = s \<and>
   fst (step e s (Message sid (IceCandidateMsg r candidate))) = s"
  by (simp add: step_def handle_def offer_def answer_def ice_candidate_def)

section \<open>Capacity and empty rooms\<close>

text \<open>
  Claim C1. Every room in the registry has at most two members, and a room without
  members has no entry. The second part fails on one path: the \<open>disconnect\<close> handler
  deletes the entry of a room it empties, the \<open>leave_room\<close> handler does not. After A
  joins room x and leaves it, x is still in the registry, with no member.
\<close>

theorem leave_keeps_empty_room:
  "roomIdToParticipants
     (run default_env initial_state
        [Connection ''A'', Message ''A'' (JoinRoom ''x'' ''Ann''),
         Message ''A'' (LeaveRoom ''x'') :: (unit, unit) event]) ''x'' = Some []"
  by (simp add: model_defs)

text \<open>The first part holds: after any sequence of events no room has more than two members.\<close>

lemma room_size_le_2: "length (members (run e initial_state evs) r) \<le> 2"
  using wf_reachable [of e evs]
  by (auto simp: wf_def registry_ok_def members_def participants_of_def split: option.splits)

section \<open>A full room rejects a join\<close>

lemma members_2_nonempty:
  assumes "registry_ok s" "length (members s r) = 2"
  shows "r \<noteq> []" "2 \<le> length (participants_of s r)"
  using assms by (auto simp: registry_ok_def members_def participants_of_def)

text \<open>
  Claim C2. After any sequence of events, a join request for a room that has two members
  is answered with \<open>room_full\<close>, sent to the requesting socket only, and the whole server
  state (room map, memberships, per-connection data) is what it was.
\<close>

theorem room_full_unchanged:
  fixes evs :: "('sdp, 'cand) event list"
  assumes "s = run e initial_state evs" "sockets s sid \<noteq> None" "length (members s r) = 2"
  shows "step e s (Message sid (JoinRoom r name) :: ('sdp, 'cand) event) = (s, [(sid, RoomFull r)])"
proof -
  have "wf s" using assms(1) by (simp add: wf_reachable)
  then have "registry_ok s" by (simp add: wf_def)
  from members_2_nonempty [OF this assms(3)] show ?thesis
    using assms(2)
    by (auto simp: step_def handle_def join_room_def participants_of_def Let_def
        split: option.splits)
qed

theorem room_full_unchanged_witness:
  "sockets (run default_env initial_state
        [Connection ''A'', Connection ''B'', Connection ''C'',
         Message ''A'' (JoinRoom ''x'' ''Ann''),
         Message ''B'' (JoinRoom ''x'' ''Bob'') :: (unit, unit) event]) ''C'' \<noteq> None \<and>
   members (run default_env initial_state
        [Connection ''A'', Connection ''B'', Connection ''C'',
         Message ''A'' (JoinRoom ''x'' ''Ann''),
         Message ''B'' (JoinRoom ''x'' ''Bob'') :: (unit, unit) event]) ''x'' = [''A'', ''B''] \<and>
   snd (step default_env
     (run default_env initial_state
        [Connection ''A'', Connection ''B'', Connection ''C'',
         Message ''A'' (JoinRoom ''x'' ''Ann''),
         Message ''B'' (JoinRoom ''x'' ''Bob'') :: (unit, unit) event])
     (Message ''C'' (JoinRoom ''x'' ''Cy'') :: (unit, unit) event)) = [(''C'', RoomFull ''x'')]"
proof -
  define s where "s = run default_env initial_state
        [Connection ''A'', Connection ''B'', Connection ''C'',
         Message ''A'' (JoinRoom ''x'' ''Ann''),
         Message ''B'' (JoinRoom ''x'' ''Bob'') :: (unit, unit) event]"
  have h1: "sockets s ''C'' \<noteq> None" by (simp add: s_def model_defs)
  have h2: "members s ''x'' = [''A'', ''B'']" by (simp add: s_def model_defs)
  then have "length (members s ''x'') = 2" by simp
  from room_full_unchanged [where name = "''Cy''", OF s_def h1 this]
  have "snd (step default_env s (Message ''C'' (JoinRoom ''x'' ''Cy'') :: (unit, unit) event))
      = [(''C'', RoomFull ''x'')]"
    by simp
  then show ?thesis using h1 h2 unfolding s_def by blast
qed

lemma filter_map_set [simp]:
  "filter (\<lambda>p. fst p \<noteq> k) (map_set k v ps) = filter (\<lambda>p. fst p \<noteq> k) ps"
  by (induction ps) auto

lemma filter_set_add [simp]:
  "filter (\<lambda>b. b \<noteq> x) (set_add x xs) = filter (\<lambda>b. b \<noteq> x) xs"
  by (simp add: set_add_def)




section \<open>A successful join\<close>



section \<open>Relaying offers, answers and candidates\<close>



section \<open>Which rooms the relay serves\<close>






section \<open>Rooms of one connection\<close>









section \<open>Leaving and disconnecting\<close>












section \<open>The \<open>/config\<close> request and the credential cache\<close>


lemma xirsys_request_ok:
  "xs \<noteq> [] \<Longrightarrow> xirsys_request cache now (JsonBody (IceArray xs))
     = (Some xs, Some \<lparr>iceServers = xs, fetchedAt = now\<rparr>)"
  by (simp add: xirsys_request_def)

lemma fetch_unconfigured:
  "\<not> configured e \<Longrightarrow> fetchXirsysIceServers e cache now resp = (None, cache, False)"
  by (auto simp: configured_def fetchXirsysIceServers_def)

lemma fetch_cached:
  "configured e \<Longrightarrow> unexpired e now c \<Longrightarrow>
   fetchXirsysIceServers e (Some c) now resp = (Some (iceServers c), Some c, False)"
  by (simp add: configured_def unexpired_def fetchXirsysIceServers_def)

lemma fetch_refresh:
  "configured e \<Longrightarrow> cache = None \<or> (\<exists>c. cache = Some c \<and> \<not> unexpired e now c) \<Longrightarrow>
   fetchXirsysIceServers e cache now resp
     = (fst (xirsys_request cache now resp), snd (xirsys_request cache now resp), True)"
  by (auto simp: configured_def unexpired_def fetchXirsysIceServers_def split: prod.splits)





subsection \<open>The cache entry of a reachable state\<close>

lemma handle_cache: "xirsysCache (fst (handle s sid m)) = xirsysCache s"
  by (cases m)
    (auto simp: handle_def join_room_def leave_room_def offer_def answer_def ice_candidate_def
      Let_def split: option.splits)

lemma disconnect_cache: "xirsysCache (fst (disconnect s sid)) = xirsysCache s"
  by (auto simp: disconnect_def on_disconnect_def Let_def split: option.splits)

lemma get_config_cache:
  "fst (snd (get_config e cache now resp)) = fst (snd (fetchXirsysIceServers e cache now resp))"
  by (simp add: get_config_def Let_def split: prod.splits)

lemma xirsys_request_cache:
  "snd (xirsys_request cache now resp) = cache \<or>
   (\<exists>xs. xs \<noteq> [] \<and> snd (xirsys_request cache now resp) = Some \<lparr>iceServers = xs, fetchedAt = now\<rparr>)"
  by (auto simp: xirsys_request_def split: xirsys_response.splits v_iceServers.splits)

lemma fetch_cache:
  assumes "\<forall>c. cache = Some c \<longrightarrow> configured e \<and> iceServers c \<noteq> []"
    and "fst (snd (fetchXirsysIceServers e cache now resp)) = Some c"
  shows "configured e \<and> iceServers c \<noteq> []"
proof (cases "configured e")
  case False
  then show ?thesis using assms by (simp add: fetch_unconfigured)
next
  case True
  show ?thesis
  proof (cases "\<exists>c'. cache = Some c' \<and> unexpired e now c'")
    case True
    then show ?thesis using assms \<open>configured e\<close> by (auto simp: fetch_cached)
  next
    case False
    then have "cache = None \<or> (\<exists>c. cache = Some c \<and> \<not> unexpired e now c)"
      by (cases cache) auto
    from fetch_refresh [OF True this] assms xirsys_request_cache [of cache now resp]
    show ?thesis using True by auto
  qed
qed

lemma cache_ok_step: "cache_ok e s \<Longrightarrow> cache_ok e (fst (step e s ev))"
proof (cases ev)
  case (Connection sid)
  assume "cache_ok e s" then show ?thesis using Connection
    by (simp add: step_def connection_def cache_ok_def)
next
  case (Message sid m)
  assume "cache_ok e s" then show ?thesis using Message
    by (simp add: step_def cache_ok_def handle_cache)
next
  case (Disconnect sid)
  assume "cache_ok e s" then show ?thesis using Disconnect
    by (simp add: step_def cache_ok_def disconnect_cache)
next
  case (GetConfig now resp)
  assume a: "cache_ok e s"
  show ?thesis
    unfolding cache_ok_def
  proof (intro allI impI)
    fix c
    assume "xirsysCache (fst (step e s ev)) = Some c"
    then have "fst (snd (fetchXirsysIceServers e (xirsysCache s) now resp)) = Some c"
      using GetConfig by (simp add: step_def get_config_cache)
    from fetch_cache [OF _ this] a show "configured e \<and> iceServers c \<noteq> []"
      by (simp add: cache_ok_def)
  qed
qed

lemma cache_ok_run: "cache_ok e s \<Longrightarrow> cache_ok e (run e s evs)"
  by (induction evs arbitrary: s) (simp_all add: cache_ok_step)

lemma cache_ok_reachable: "cache_ok e (run e initial_state evs)"
  by (rule cache_ok_run) (simp add: cache_ok_def initial_state_def)

text \<open>
  Claim C9. The cache is one optional entry of the server state. After any sequence of
  events, a cached entry is reused exactly while \<open>now - fetchedAt < TTL\<close>: while it is
  unexpired the cached descriptors are returned (and follow the routing-discovery entry in
  the \<open>/config\<close> answer), the cache is untouched and the issuer is not asked; once it has
  expired the issuer is asked. A successful refresh replaces the entry by the new
  descriptor list with the current time, whatever the previous entry was.
\<close>

theorem cache_reuse:
  fixes evs :: "('sdp, 'cand) event list"
  assumes "s = run e initial_state evs"
  shows "(xirsysCache s = Some c \<and> unexpired e now c \<longrightarrow>
        fetchXirsysIceServers e (xirsysCache s) now resp = (Some (iceServers c), Some c, False) \<and>
        get_config e (xirsysCache s) now resp
          = (HttpJson 200 \<lparr>body_iceServers = stun_servers e @ iceServers c,
                            publicBaseUrl = PUBLIC_BASE_URL e\<rparr>, Some c, False)) \<and>
     (xirsysCache s = Some c \<and> \<not> unexpired e now c \<longrightarrow>
        snd (snd (fetchXirsysIceServers e (xirsysCache s) now resp))) \<and>
     (configured e \<and> xs \<noteq> [] \<and>
      (xirsysCache s = None \<or> (xirsysCache s = Some c \<and> \<not> unexpired e now c)) \<longrightarrow>
        fetchXirsysIceServers e (xirsysCache s) now (JsonBody (IceArray xs))
          = (Some xs, Some \<lparr>iceServers = xs, fetchedAt = now\<rparr>, True) \<and>
        xirsysCache (fst (step e s (GetConfig now (JsonBody (IceArray xs)) :: ('sdp, 'cand) event)))
          = Some \<lparr>iceServers = xs, fetchedAt = now\<rparr>)"
proof -
  have ok: "cache_ok e s" using assms by (simp add: cache_ok_reachable)
  have 1: "fetchXirsysIceServers e (xirsysCache s) now resp = (Some (iceServers c), Some c, False) \<and>
        get_config e (xirsysCache s) now resp
          = (HttpJson 200 \<lparr>body_iceServers = stun_servers e @ iceServers c,
                            publicBaseUrl = PUBLIC_BASE_URL e\<rparr>, Some c, False)"
    if "xirsysCache s = Some c" "unexpired e now c"
  proof -
    have "configured e" "iceServers c \<noteq> []" using ok that(1) by (simp_all add: cache_ok_def)
    then show ?thesis using that
      by (simp add: get_config_def fetch_cached)
  qed
  have 2: "snd (snd (fetchXirsysIceServers e (xirsysCache s) now resp))"
    if "xirsysCache s = Some c" "\<not> unexpired e now c"
  proof -
    have "configured e" using ok that(1) by (simp add: cache_ok_def)
    from fetch_refresh [OF this, of "xirsysCache s" now resp] that show ?thesis by simp
  qed
  have 3: "fetchXirsysIceServers e (xirsysCache s) now (JsonBody (IceArray xs))
          = (Some xs, Some \<lparr>iceServers = xs, fetchedAt = now\<rparr>, True) \<and>
        xirsysCache (fst (step e s (GetConfig now (JsonBody (IceArray xs)) :: ('sdp, 'cand) event)))
          = Some \<lparr>iceServers = xs, fetchedAt = now\<rparr>"
    if "configured e" "xs \<noteq> []"
      "xirsysCache s = None \<or> (xirsysCache s = Some c \<and> \<not> unexpired e now c)"
  proof -
    have "xirsysCache s = None \<or> (\<exists>c. xirsysCache s = Some c \<and> \<not> unexpired e now c)"
      using that(3) by blast
    from fetch_refresh [OF that(1) this]
    show ?thesis using that(2) by (simp add: xirsys_request_ok step_def get_config_cache)
  qed
  show ?thesis
  proof (intro conjI impI)
    assume "xirsysCache s = Some c \<and> unexpired e now c"
    then show "fetchXirsysIceServers e (xirsysCache s) now resp = (Some (iceServers c), Some c, False)"
      and "get_config e (xirsysCache s) now resp
          = (HttpJson 200 \<lparr>body_iceServers = stun_servers e @ iceServers c,
                            publicBaseUrl = PUBLIC_BASE_URL e\<rparr>, Some c, False)"
      using 1 by simp_all
  next
    assume "xirsysCache s = Some c \<and> \<not> unexpired e now c"
    then show "snd (snd (fetchXirsysIceServers e (xirsysCache s) now resp))" using 2 by simp
  next
    assume a: "configured e \<and> xs \<noteq> [] \<and>
      (xirsysCache s = None \<or> (xirsysCache s = Some c \<and> \<not> unexpired e now c))"
    then have "configured e" "xs \<noteq> []"
      "xirsysCache s = None \<or> (xirsysCache s = Some c \<and> \<not> unexpired e now c)" by simp_all
    from 3 [OF this]
    show "fetchXirsysIceServers e (xirsysCache s) now (JsonBody (IceArray xs))
          = (Some xs, Some \<lparr>iceServers = xs, fetchedAt = now\<rparr>, True)"
      and "xirsysCache (fst (step e s (GetConfig now (JsonBody (IceArray xs)) :: ('sdp, 'cand) event)))
          = Some \<lparr>iceServers = xs, fetchedAt = now\<rparr>"
      by simp_all
  qed
qed

theorem cache_reuse_witness:
  "xirsysCache (run xirsys_env initial_state
      [GetConfig 1000 (JsonBody (IceArray
         [\<lparr>urls = Url ''turn:t'', username = Some ''u'', credential = Some ''p''\<rparr>]))
       :: (unit, unit) event])
     = Some \<lparr>iceServers = [\<lparr>urls = Url ''turn:t'', username = Some ''u'', credential = Some ''p''\<rparr>],
             fetchedAt = 1000\<rparr> \<and>
   unexpired xirsys_env 2000
     \<lparr>iceServers = [\<lparr>urls = Url ''turn:t'', username = Some ''u'', credential = Some ''p''\<rparr>],
      fetchedAt = 1000\<rparr> \<and>
   fetchXirsysIceServers xirsys_env
     (xirsysCache (run xirsys_env initial_state
        [GetConfig 1000 (JsonBody (IceArray
           [\<lparr>urls = Url ''turn:t'', username = Some ''u'', credential = Some ''p''\<rparr>]))
         :: (unit, unit) event])) 2000 NetworkError
     = (Some [\<lparr>urls = Url ''turn:t'', username = Some ''u'', credential = Some ''p''\<rparr>],
        Some \<lparr>iceServers = [\<lparr>urls = Url ''turn:t'', username = Some ''u'', credential = Some ''p''\<rparr>],
              fetchedAt = 1000\<rparr>, False) \<and>
   \<not> unexpired xirsys_env 601000
     \<lparr>iceServers = [\<lparr>urls = Url ''turn:t'', username = Some ''u'', credential = Some ''p''\<rparr>],
      fetchedAt = 1000\<rparr> \<and>
   xirsysCache (fst (step xirsys_env (run xirsys_env initial_state
        [GetConfig 1000 (JsonBody (IceArray
           [\<lparr>urls = Url ''turn:t'', username = Some ''u'', credential = Some ''p''\<rparr>]))
         :: (unit, unit) event])
      (GetConfig 601000 (JsonBody (IceArray
           [\<lparr>urls = Url ''turn:n'', username = Some ''v'', credential = Some ''q''\<rparr>]))
         :: (unit, unit) event)))
     = Some \<lparr>iceServers = [\<lparr>urls = Url ''turn:n'', username = Some ''v'', credential = Some ''q''\<rparr>],
             fetchedAt = 601000\<rparr>"
proof -
  define t where "t = \<lparr>urls = Url ''turn:t'', username = Some ''u'', credential = Some ''p''\<rparr>"
  define n where "n = \<lparr>urls = Url ''turn:n'', username = Some ''v'', credential = Some ''q''\<rparr>"
  define s where "s = run xirsys_env initial_state
      [GetConfig 1000 (JsonBody (IceArray [t])) :: (unit, unit) event]"
  have cf: "configured xirsys_env"
    by (simp add: configured_def xirsys_env_def default_env_def)
  have h1: "xirsysCache s = Some \<lparr>iceServers = [t], fetchedAt = 1000\<rparr>"
    by (simp add: s_def step_def get_config_def fetchXirsysIceServers_def xirsys_request_def
        xirsys_env_def default_env_def initial_state_def)
  have h2: "unexpired xirsys_env 2000 \<lparr>iceServers = [t], fetchedAt = 1000\<rparr>"
    by (simp add: unexpired_def xirsys_env_def default_env_def)
  have h3: "\<not> unexpired xirsys_env 601000 \<lparr>iceServers = [t], fetchedAt = 1000\<rparr>"
    by (simp add: unexpired_def xirsys_env_def default_env_def)
  from cache_reuse [where now = 2000 and resp = NetworkError, OF s_def] h1 h2
  have a: "fetchXirsysIceServers xirsys_env (xirsysCache s) 2000 NetworkError
     = (Some [t], Some \<lparr>iceServers = [t], fetchedAt = 1000\<rparr>, False)"
    by fastforce
  have "[n] \<noteq> []" by simp
  with cache_reuse [where now = 601000 and xs = "[n]"
      and c = "\<lparr>iceServers = [t], fetchedAt = 1000\<rparr>", OF s_def] cf h1 h3
  have b: "xirsysCache (fst (step xirsys_env s
      (GetConfig 601000 (JsonBody (IceArray [n])) :: (unit, unit) event)))
     = Some \<lparr>iceServers = [n], fetchedAt = 601000\<rparr>"
    by blast
  show ?thesis using h1 h2 h3 a b unfolding s_def t_def n_def by blast
qed

end
